theory Spec2Isabelle
  imports Complex_Main
begin

section \<open>Phase analysis: spike-triggered phases and pairwise phase consistency\<close>

text \<open>
  A shallow embedding of \<^verbatim>\<open>elephant/phase_analysis.py\<close>. Floating-point numbers are
  read as real numbers (rounding and the \<^verbatim>\<open>float32\<close> precision of the product matrix are not
  modelled); the one place where the floating-point result is not a number, the division of
  the matrix sum by zero, is kept as a value of its own. Physical units are an opaque tag and
  are left out, except for the read of \<^verbatim>\<open>entry[0].units\<close>, which needs a first element.
\<close>

subsection \<open>Python values and errors\<close>

datatype error = ValueError | TypeError | IndexError | UndefinedCast

text \<open>An argument that is either a bare value or a Python list of values.\<close>

datatype 'a arg = Single 'a | PyList "'a list"

text \<open>\<^verbatim>\<open>if not isinstance(x, list): x = [x]\<close>\<close>

fun as_list :: "'a arg \<Rightarrow> 'a list" where
  "as_list (Single x) = [x]"
| "as_list (PyList xs) = xs"

text \<open>
  Reading \<^verbatim>\<open>xs[i]\<close> for a Python integer \<open>i\<close>: positions from the front for
  \<open>0 \<le> i\<close>, from the back for \<open>i < 0\<close>, and \<^verbatim>\<open>IndexError\<close> outside both ranges.
\<close>

definition py_index :: "'a list \<Rightarrow> int \<Rightarrow> error + 'a" where
  "py_index xs i =
     (if 0 \<le> i \<and> i < int (length xs) then Inr (xs ! nat i)
      else if i < 0 \<and> - int (length xs) \<le> i then Inr (xs ! nat (int (length xs) + i))
      else Inl IndexError)"

subsection \<open>Pairwise phase consistency\<close>

text \<open>
  An element of the input list: a numpy array with its number of dimensions and its
  (flattened) numeric content, or any other object.
\<close>

datatype pyval = NDArray nat "real list" | NotArray

text \<open>The result of a numpy division: a number, or one of the three special values.\<close>

datatype npfloat = Finite real | NaN | PosInf | NegInf

datatype pyret = Float npfloat | PyNone

text \<open>The validation loop over the elements of \<^verbatim>\<open>phases\<close>.\<close>

fun check_arrays :: "pyval list \<Rightarrow> error + unit" where
  "check_arrays [] = Inr ()"
| "check_arrays (NotArray # rest) = Inl TypeError"
| "check_arrays (NDArray ndim v # rest) =
     (if ndim \<noteq> 1 then Inl ValueError else check_arrays rest)"

text \<open>The content of an array; only read after the validation has passed.\<close>

fun array_data :: "pyval \<Rightarrow> real list" where
  "array_data (NDArray ndim v) = v"
| "array_data NotArray = []"

text \<open>\<^verbatim>\<open>np.hstack\<close> of one-dimensional arrays; it raises on an empty list of arrays.\<close>

definition hstack :: "pyval list \<Rightarrow> error + real list" where
  "hstack arrs = (if arrs = [] then Inl ValueError else Inr (concat (map array_data arrs)))"

text \<open>\<^verbatim>\<open>np.broadcast_to(v, (n, n))\<close>: \<open>n\<close> rows, each of them \<open>v\<close>.\<close>

definition broadcast_to :: "real list \<Rightarrow> nat \<Rightarrow> real list list" where
  "broadcast_to v n = replicate n v"

definition multiply :: "real list list \<Rightarrow> real list list \<Rightarrow> real list list" where
  "multiply a b = map2 (map2 (*)) a b"

definition add_matrix :: "real list list \<Rightarrow> real list list \<Rightarrow> real list list" where
  "add_matrix a b = map2 (map2 (+)) a b"

definition fill_diagonal :: "real list list \<Rightarrow> real \<Rightarrow> real list list" where
  "fill_diagonal m v = map (\<lambda>(i, row). row[i := v]) (enumerate 0 m)"

definition np_sum :: "real list list \<Rightarrow> real" where
  "np_sum m = sum_list (map sum_list m)"

text \<open>
  Dividing a numpy float by a Python integer: a zero divisor gives \<^verbatim>\<open>nan\<close> or an infinity
  (with a warning), never an exception.
\<close>

definition np_divide :: "real \<Rightarrow> int \<Rightarrow> npfloat" where
  "np_divide s d =
     (if d = 0 then (if s = 0 then NaN else if 0 < s then PosInf else NegInf)
      else Finite (s / real_of_int d))"

definition dot_prod :: "real list \<Rightarrow> real list list" where
  "dot_prod phase_array =
     (let n_trials = length phase_array;
          p_cos_2d = broadcast_to (map cos phase_array) n_trials;
          p_sin_2d = broadcast_to (map sin phase_array) n_trials
      in add_matrix (multiply p_cos_2d (transpose p_cos_2d))
                    (multiply p_sin_2d (transpose p_sin_2d)))"

text \<open>
  The function itself. After the normalisation the argument is a list, so the source's
  second test of its type cannot fail and is left out. The method test comes before the
  pooling; the two branches on the method after the matrix are kept as they are written,
  the second one returning nothing.
\<close>

definition pairwise_phase_consistency :: "pyval arg \<Rightarrow> string \<Rightarrow> error + pyret" where
  "pairwise_phase_consistency phases method =
     (case check_arrays (as_list phases) of
        Inl e \<Rightarrow> Inl e
      | Inr u \<Rightarrow>
          if method \<notin> set [''ppc0''] then Inl ValueError
          else
            (case hstack (as_list phases) of
               Inl e \<Rightarrow> Inl e
             | Inr phase_array \<Rightarrow>
                 (let n_trials = int (length phase_array);
                      dp = fill_diagonal (dot_prod phase_array) 0
                  in if method = ''ppc0''
                     then Inr (Float (np_divide (np_sum dp) (n_trials * n_trials - n_trials)))
                     else if method = ''ppc1'' then Inr PyNone
                     else Inr PyNone)))"

text \<open>
  The statistic as the specification words it: the sum of \<open>cos (\<theta>\<^sub>j - \<theta>\<^sub>k)\<close> over all
  ordered pairs with \<open>j \<noteq> k\<close>, divided by \<open>N (N - 1)\<close>.
\<close>

definition ppc0_spec :: "real list \<Rightarrow> real" where
  "ppc0_spec \<theta> =
     (let N = length \<theta>
      in (1 / (real N * (real N - 1))) *
         (\<Sum>j<N. \<Sum>k\<in>{..<N} - {j}. cos (\<theta> ! j - \<theta> ! k)))"

text \<open>A one-dimensional numpy array: what the validation loop lets through.\<close>

fun is_1d :: "pyval \<Rightarrow> bool" where
  "is_1d (NDArray ndim v) = (ndim = 1)"
| "is_1d NotArray = False"

subsection \<open>Spike-triggered phase\<close>

text \<open>
  What the function reads of a \<^verbatim>\<open>neo.AnalogSignal\<close>: its attributes \<^verbatim>\<open>t_start\<close>,
  \<^verbatim>\<open>t_stop\<close>, \<^verbatim>\<open>sampling_period\<close> and \<^verbatim>\<open>times\<close>, and its complex samples (one channel).
  The attributes are taken as the signal object gives them. A spike train is read as the
  array of its spike times; all times are in one unit.
\<close>

record analog_signal =
  t_start :: real
  t_stop :: real
  sampling_period :: real
  times_arr :: "real list"
  samples :: "complex list"

type_synonym spiketrain = "real list"

text \<open>The three result lists: phases, amplitudes and times, one entry per spike train.\<close>

type_synonym results = "real list list \<times> real list list \<times> real list list"

text \<open>
  \<^verbatim>\<open>np.where(np.logical_and(spiketrain >= start, spiketrain < stop))[0]\<close>: the positions
  of the spikes inside the signal segment, in increasing order.
\<close>

definition sttimeind :: "spiketrain \<Rightarrow> real \<Rightarrow> real \<Rightarrow> nat list" where
  "sttimeind spiketrain start stop =
     filter (\<lambda>k. spiketrain ! k \<ge> start \<and> spiketrain ! k < stop) [0..<length spiketrain]"

text \<open>\<^verbatim>\<open>.astype(int)\<close> on a float: the fractional part is dropped (rounding towards zero).\<close>

definition astype_int :: "real \<Rightarrow> int" where
  "astype_int x = (if x < 0 then \<lceil>x\<rceil> else \<lfloor>x\<rfloor>)"

definition sample_index :: "analog_signal \<Rightarrow> real \<Rightarrow> int" where
  "sample_index sig t = astype_int ((t - t_start sig) / sampling_period sig)"

text \<open>
  The index into the signal for each retained spike. Dividing by a sampling period of zero
  gives \<^verbatim>\<open>inf\<close> or \<^verbatim>\<open>nan\<close>, whose cast to an integer numpy leaves to the platform: that
  outcome is kept apart as \<open>UndefinedCast\<close>. An empty selection divides nothing.
\<close>

definition ind_at_spike :: "analog_signal \<Rightarrow> spiketrain \<Rightarrow> nat list \<Rightarrow> error + int list" where
  "ind_at_spike sig spiketrain sti =
     (if sti \<noteq> [] \<and> sampling_period sig = 0 then Inl UndefinedCast
      else Inr (map (\<lambda>k. sample_index sig (spiketrain ! k)) sti))"

text \<open>
  The relative position \<open>z\<close> of a spike between the sample at \<open>ind\<close> and the next one.
\<close>

definition spike_offset :: "analog_signal \<Rightarrow> real \<Rightarrow> int \<Rightarrow> error + real" where
  "spike_offset sig t ind =
     (case py_index (times_arr sig) ind of
        Inl e \<Rightarrow> Inl e
      | Inr ti \<Rightarrow> Inr ((t - ti) / sampling_period sig))"

text \<open>
  The body of the loop over the spikes: the phase and the amplitude for the spike at time
  \<open>t\<close> with signal index \<open>ind\<close>. \<^verbatim>\<open>np.angle\<close> is \<^const>\<open>Arg\<close> (both give 0 at 0),
  \<^verbatim>\<open>np.exp(np.complex(0, p))\<close> is \<^const>\<open>cis\<close>, \<^verbatim>\<open>np.abs\<close> is \<^const>\<open>cmod\<close>.
\<close>

definition spike_step :: "analog_signal \<Rightarrow> bool \<Rightarrow> real \<Rightarrow> int \<Rightarrow> error + (real \<times> real)" where
  "spike_step sig interpolate t ind =
     (if interpolate \<and> ind + 1 < int (length (times_arr sig)) then
        (case spike_offset sig t ind of
           Inl e \<Rightarrow> Inl e
         | Inr z \<Rightarrow>
             (case py_index (samples sig) ind of
                Inl e \<Rightarrow> Inl e
              | Inr s1 \<Rightarrow>
                  (case py_index (samples sig) (ind + 1) of
                     Inl e \<Rightarrow> Inl e
                   | Inr s2 \<Rightarrow>
                       (let p1 = Arg s1;
                            p2 = Arg s2;
                            interpolation =
                              complex_of_real (1 - z) * cis p1 + complex_of_real z * cis p2;
                            p12 = Arg interpolation
                        in Inr (p12, (1 - z) * cmod s1 + z * cmod s2)))))
      else
        (case py_index (samples sig) ind of
           Inl e \<Rightarrow> Inl e
         | Inr s1 \<Rightarrow> Inr (Arg s1, cmod s1)))"

text \<open>\<^verbatim>\<open>result[i].append(x)\<close>\<close>

definition append_at :: "'a list list \<Rightarrow> nat \<Rightarrow> 'a \<Rightarrow> 'a list list" where
  "append_at result i x = result[i := result ! i @ [x]]"

text \<open>
  The loop over \<^verbatim>\<open>enumerate(ind_at_spike)\<close>. The positions \<open>sti ! spike_i\<close> and
  \<open>spiketrain ! _\<close> are always in range: \<open>sti\<close> is as long as \<^verbatim>\<open>ind_at_spike\<close> and holds
  positions of \<open>spiketrain\<close>.
\<close>

fun spike_loop ::
  "analog_signal \<Rightarrow> bool \<Rightarrow> spiketrain \<Rightarrow> nat list \<Rightarrow> nat \<Rightarrow> (nat \<times> int) list \<Rightarrow> results
   \<Rightarrow> error + results" where
  "spike_loop sig interpolate spiketrain sti spiketrain_i [] res = Inr res"
| "spike_loop sig interpolate spiketrain sti spiketrain_i ((spike_i, ind_at_spike_j) # rest)
     (result_phases, result_amps, result_times) =
     (case spike_step sig interpolate (spiketrain ! (sti ! spike_i)) ind_at_spike_j of
        Inl e \<Rightarrow> Inl e
      | Inr (p, a) \<Rightarrow>
          spike_loop sig interpolate spiketrain sti spiketrain_i rest
            (append_at result_phases spiketrain_i p,
             append_at result_amps spiketrain_i a,
             append_at result_times spiketrain_i (spiketrain ! (sti ! spike_i))))"

text \<open>Which signal a spike train is compared with.\<close>

definition phase_index :: "nat \<Rightarrow> nat \<Rightarrow> nat" where
  "phase_index num_phase spiketrain_i = (if num_phase > 1 then spiketrain_i else 0)"

text \<open>The loop over \<^verbatim>\<open>enumerate(spiketrains)\<close>.\<close>

fun train_loop ::
  "analog_signal list \<Rightarrow> bool \<Rightarrow> (nat \<times> spiketrain) list \<Rightarrow> results \<Rightarrow> error + results" where
  "train_loop hilbert_transform interpolate [] res = Inr res"
| "train_loop hilbert_transform interpolate ((spiketrain_i, spiketrain) # rest)
     (result_phases, result_amps, result_times) =
     (let phase_i = int (phase_index (length hilbert_transform) spiketrain_i)
      in case py_index (map t_start hilbert_transform) phase_i of
           Inl e \<Rightarrow> Inl e
         | Inr start \<Rightarrow>
       (case py_index (map t_stop hilbert_transform) phase_i of
           Inl e \<Rightarrow> Inl e
         | Inr stop \<Rightarrow>
       (case py_index hilbert_transform phase_i of
           Inl e \<Rightarrow> Inl e
         | Inr sig \<Rightarrow>
       (let sti = sttimeind spiketrain start stop
        in case ind_at_spike sig spiketrain sti of
             Inl e \<Rightarrow> Inl e
           | Inr inds \<Rightarrow>
               (case spike_loop sig interpolate spiketrain sti spiketrain_i (enumerate 0 inds)
                       (result_phases @ [[]], result_amps @ [[]], result_times @ [[]]) of
                  Inl e \<Rightarrow> Inl e
                | Inr res \<Rightarrow> train_loop hilbert_transform interpolate rest res)))))"

text \<open>
  \<^verbatim>\<open>pq.Quantity(entry, units=entry[0].units).flatten()\<close>: the unit is read from the first
  element, which an empty entry does not have.
\<close>

fun quantity_entry :: "real list \<Rightarrow> error + real list" where
  "quantity_entry [] = Inl IndexError"
| "quantity_entry (x # xs) = Inr (x # xs)"

text \<open>The conversion loop over the entries of a result list.\<close>

fun quantity_entries :: "real list list \<Rightarrow> error + real list list" where
  "quantity_entries [] = Inr []"
| "quantity_entries (entry # rest) =
     (case quantity_entry entry of
        Inl e \<Rightarrow> Inl e
      | Inr q \<Rightarrow>
          (case quantity_entries rest of
             Inl e \<Rightarrow> Inl e
           | Inr qs \<Rightarrow> Inr (q # qs)))"

text \<open>
  The function itself: both arguments are normalised to lists, the counts are checked, the
  loop over the spike trains fills the three result lists, and the results are converted.
  The conversion of the phases, \<^verbatim>\<open>np.array(entry).flatten()\<close>, keeps the list of phases of
  an entry as it is, also when it is empty.
\<close>

definition spike_triggered_phase ::
  "analog_signal arg \<Rightarrow> spiketrain arg \<Rightarrow> bool \<Rightarrow> error + results" where
  "spike_triggered_phase hilbert_transform spiketrains interpolate =
     (let spiketrains = as_list spiketrains;
          hilbert_transform = as_list hilbert_transform;
          num_spiketrains = length spiketrains;
          num_phase = length hilbert_transform
      in if num_spiketrains \<noteq> 1 \<and> num_phase \<noteq> 1 \<and> num_spiketrains \<noteq> num_phase
         then Inl ValueError
         else
           (case train_loop hilbert_transform interpolate (enumerate 0 spiketrains) ([], [], []) of
              Inl e \<Rightarrow> Inl e
            | Inr (result_phases, result_amps, result_times) \<Rightarrow>
                (case quantity_entries result_amps of
                   Inl e \<Rightarrow> Inl e
                 | Inr amps \<Rightarrow>
                     (case quantity_entries result_times of
                        Inl e \<Rightarrow> Inl e
                      | Inr times' \<Rightarrow> Inr (result_phases, amps, times')))))"

text \<open>
  For stating the properties: the signal matched with the spike train at position \<open>i\<close>, and
  the times of the spikes of a train that lie in the segment of a signal.
\<close>

definition matched_signal :: "analog_signal list \<Rightarrow> nat \<Rightarrow> analog_signal" where
  "matched_signal hilbert_transform i =
     hilbert_transform ! phase_index (length hilbert_transform) i"

definition retained :: "analog_signal \<Rightarrow> spiketrain \<Rightarrow> real list" where
  "retained sig spiketrain =
     map (\<lambda>k. spiketrain ! k) (sttimeind spiketrain (t_start sig) (t_stop sig))"

text \<open>
  Index alignment of one result entry: the times are the retained spike times, and the phase
  and the amplitude at each position are what the loop body computes for the spike at that
  position.
\<close>

definition aligned ::
  "analog_signal \<Rightarrow> bool \<Rightarrow> real list \<Rightarrow> real list \<Rightarrow> real list \<Rightarrow> real list \<Rightarrow> bool" where
  "aligned sig interpolate events ps amps ts \<longleftrightarrow>
     ts = events \<and> length ps = length events \<and> length amps = length events \<and>
     map (\<lambda>t. spike_step sig interpolate t (sample_index sig t)) events = map Inr (zip ps amps)"

text \<open>Two small signals of three samples, used to run the functions on concrete inputs.\<close>

definition example_signal :: analog_signal where
  "example_signal =
     \<lparr>t_start = 0, t_stop = 3, sampling_period = 1, times_arr = [0, 1, 2],
      samples = [1, \<i>, - 1]\<rparr>"

definition other_signal :: analog_signal where
  "other_signal =
     \<lparr>t_start = 0, t_stop = 3, sampling_period = 1, times_arr = [0, 1, 2],
      samples = [\<i>, \<i>, \<i>]\<rparr>"

section \<open>Properties of the pairwise phase consistency\<close>

subsection \<open>The product matrix\<close>

lemma transpose_replicate:
  assumes "length v = n"
  shows "transpose (replicate n v) = map (\<lambda>i. replicate n (v ! i)) [0..<n]"
proof -
  have "transpose (replicate n v) = map (\<lambda>i. map (\<lambda>j. replicate n v ! j ! i) [0..<length (replicate n v)]) [0..<n]"
    by (rule transpose_rectangle) (use assms in auto)
  also have "\<dots> = map (\<lambda>i. replicate n (v ! i)) [0..<n]"
    by (auto simp: map_replicate_const intro!: nth_equalityI)
  finally show ?thesis .
qed

lemma dot_prod_rows:
  "dot_prod p = map (\<lambda>i. map (\<lambda>j. cos (p ! j) * cos (p ! i) + sin (p ! j) * sin (p ! i)) [0..<length p]) [0..<length p]"
  by (auto simp: dot_prod_def Let_def add_matrix_def multiply_def transpose_replicate broadcast_to_def
      intro!: nth_equalityI)

lemma length_dot_prod: "length (dot_prod p) = length p"
  by (simp add: dot_prod_rows)

lemma nth_dot_prod:
  assumes "i < length p" "j < length p"
  shows "length (dot_prod p ! i) = length p"
    and "dot_prod p ! i ! j = cos (p ! j) * cos (p ! i) + sin (p ! j) * sin (p ! i)"
  using assms by (simp_all add: dot_prod_rows)

lemma length_fill_diagonal: "length (fill_diagonal m v) = length m"
  by (simp add: fill_diagonal_def)

lemma nth_fill_diagonal: "i < length m \<Longrightarrow> fill_diagonal m v ! i = (m ! i)[i := v]"
  by (simp add: fill_diagonal_def nth_enumerate_eq)

lemma np_sum_nth: "np_sum m = (\<Sum>i<length m. \<Sum>j<length (m ! i). m ! i ! j)"
proof -
  have "np_sum m = (\<Sum>i = 0..<length m. sum_list (m ! i))"
    by (simp add: np_sum_def sum_list_sum_nth)
  also have "\<dots> = (\<Sum>i = 0..<length m. \<Sum>j = 0..<length (m ! i). m ! i ! j)"
    by (simp add: sum_list_sum_nth)
  finally show ?thesis by (simp add: atLeast0LessThan)
qed

lemma np_sum_dot_prod:
  "np_sum (fill_diagonal (dot_prod p) 0) =
     (\<Sum>j<length p. \<Sum>k\<in>{..<length p} - {j}. cos (p ! j - p ! k))"
proof -
  let ?N = "length p"
  have "np_sum (fill_diagonal (dot_prod p) 0) =
        (\<Sum>i<?N. \<Sum>j<?N. (if j = i then 0 else cos (p ! i - p ! j)))"
    unfolding np_sum_nth length_fill_diagonal length_dot_prod
  proof (rule sum.cong[OF refl])
    fix i assume "i \<in> {..<?N}"
    then have i: "i < ?N" by simp
    have len: "length (fill_diagonal (dot_prod p) 0 ! i) = ?N"
      using i by (simp add: nth_fill_diagonal length_dot_prod nth_dot_prod)
    show "(\<Sum>j<length (fill_diagonal (dot_prod p) 0 ! i). fill_diagonal (dot_prod p) 0 ! i ! j)
          = (\<Sum>j<?N. (if j = i then 0 else cos (p ! i - p ! j)))"
      unfolding len
    proof (rule sum.cong[OF refl])
      fix j assume "j \<in> {..<?N}"
      then have j: "j < ?N" by simp
      show "fill_diagonal (dot_prod p) 0 ! i ! j = (if j = i then 0 else cos (p ! i - p ! j))"
        using i j by (simp add: nth_fill_diagonal length_dot_prod nth_dot_prod nth_list_update cos_diff mult.commute)
    qed
  qed
  also have "\<dots> = (\<Sum>i<?N. \<Sum>j\<in>{..<?N} - {i}. cos (p ! i - p ! j))"
  proof (rule sum.cong[OF refl])
    fix i
    have "(\<Sum>j<?N. (if j = i then 0 else cos (p ! i - p ! j)))
          = (\<Sum>j\<in>{..<?N} - {i}. (if j = i then 0 else cos (p ! i - p ! j)))"
      by (rule sum.mono_neutral_right) auto
    also have "\<dots> = (\<Sum>j\<in>{..<?N} - {i}. cos (p ! i - p ! j))"
      by (rule sum.cong) auto
    finally show "(\<Sum>j<?N. (if j = i then 0 else cos (p ! i - p ! j)))
          = (\<Sum>j\<in>{..<?N} - {i}. cos (p ! i - p ! j))" .
  qed
  finally show ?thesis .
qed


subsection \<open>Validation and result\<close>

lemma check_arrays_1d: "check_arrays (map (NDArray 1) trials) = Inr ()"
  by (induction trials) simp_all

lemma array_data_1d: "map array_data (map (NDArray 1) trials) = trials"
  by (induction trials) simp_all

lemma check_arrays_ok: "list_all is_1d xs \<Longrightarrow> check_arrays xs = Inr ()"
  by (induction xs rule: check_arrays.induct) simp_all

lemma check_arrays_bad:
  "\<not> list_all is_1d xs \<Longrightarrow>
   check_arrays xs =
     Inl (case find (\<lambda>x. \<not> is_1d x) xs of Some NotArray \<Rightarrow> TypeError | _ \<Rightarrow> ValueError)"
  by (induction xs rule: check_arrays.induct) simp_all

lemma ppc0_value:
  assumes "check_arrays (as_list phases) = Inr ()" and "as_list phases \<noteq> []"
  shows "pairwise_phase_consistency phases ''ppc0'' =
         Inr (Float (np_divide
           (\<Sum>j<length (concat (map array_data (as_list phases))).
              \<Sum>k\<in>{..<length (concat (map array_data (as_list phases)))} - {j}.
                cos (concat (map array_data (as_list phases)) ! j
                     - concat (map array_data (as_list phases)) ! k))
           (int (length (concat (map array_data (as_list phases))))
              * int (length (concat (map array_data (as_list phases))))
            - int (length (concat (map array_data (as_list phases)))))))"
  using assms
  by (simp add: pairwise_phase_consistency_def hstack_def Let_def np_sum_dot_prod)

lemma denominator_pos:
  assumes "2 \<le> (n::nat)"
  shows "real_of_int (int n * int n - int n) = real n * (real n - 1)"
    and "int n * int n - int n \<noteq> 0"
    and "real n * (real n - 1) \<noteq> 0"
proof -
  show "real n * (real n - 1) \<noteq> 0" using assms by simp
  show "real_of_int (int n * int n - int n) = real n * (real n - 1)"
    by (simp add: algebra_simps)
  have "int n * (int n - 1) \<noteq> 0" using assms by simp
  then show "int n * int n - int n \<noteq> 0" by (simp add: algebra_simps)
qed

lemma denominator_zero: "(n::nat) < 2 \<Longrightarrow> int n * int n - int n = 0"
proof -
  assume "n < 2"
  then have "n = 0 \<or> n = 1" by arith
  then show ?thesis by auto
qed

lemma no_other_index: "(n::nat) < 2 \<Longrightarrow> j < n \<Longrightarrow> {..<n} - {j} = {}"
  by auto

text \<open>
  Claim C3. For a pooled input of \<open>N \<ge> 2\<close> phases, given as one one-dimensional array or
  as a list of them, method \<^verbatim>\<open>ppc0\<close> returns the sum of \<open>cos (\<theta>\<^sub>j - \<theta>\<^sub>k)\<close> over all
  ordered pairs with \<open>j \<noteq> k\<close>, divided by \<open>N (N - 1)\<close>: the product matrix with its diagonal
  set to zero sums to exactly that.
\<close>

theorem ppc0_ordered_pairs:
  assumes "as_list phases = map (NDArray 1) trials" and "2 \<le> length (concat trials)"
  shows "pairwise_phase_consistency phases ''ppc0'' =
         Inr (Float (Finite (ppc0_spec (concat trials))))"
proof -
  have ne: "as_list phases \<noteq> []"
  proof
    assume "as_list phases = []"
    then have "trials = []" using assms(1) by simp
    then show False using assms(2) by simp
  qed
  have chk: "check_arrays (as_list phases) = Inr ()"
    by (simp only: assms(1) check_arrays_1d)
  have dat: "concat (map array_data (as_list phases)) = concat trials"
    by (simp only: assms(1) array_data_1d)
  show ?thesis
    unfolding ppc0_value[OF chk ne] dat
    using denominator_pos[OF assms(2)]
    by (simp add: np_divide_def ppc0_spec_def Let_def)
qed

theorem ppc0_ordered_pairs_witness:
  "as_list (PyList [NDArray 1 [0], NDArray 1 [0]]) = map (NDArray 1) [[0], [0]]
   \<and> 2 \<le> length (concat [[0], [0::real]])
   \<and> pairwise_phase_consistency (PyList [NDArray 1 [0], NDArray 1 [0]]) ''ppc0'' =
       Inr (Float (Finite (ppc0_spec (concat [[0], [0]]))))"
  using ppc0_ordered_pairs[of "PyList [NDArray 1 [0], NDArray 1 [0]]" "[[0], [0]]"]
  by simp

text \<open>
  Claim C9. For \<open>N \<ge> 2\<close> pooled phases that all have the same value, method
  \<^verbatim>\<open>ppc0\<close> returns 1.
\<close>

theorem ppc0_identical_phases:
  assumes "as_list phases = map (NDArray 1) trials" and "2 \<le> length (concat trials)"
    and "set (concat trials) = {c}"
  shows "pairwise_phase_consistency phases ''ppc0'' = Inr (Float (Finite 1))"
proof -
  let ?p = "concat trials" let ?N = "length ?p"
  have ne: "as_list phases \<noteq> []"
  proof
    assume "as_list phases = []"
    then have "trials = []" using assms(1) by simp
    then show False using assms(2) by simp
  qed
  have chk: "check_arrays (as_list phases) = Inr ()"
    by (simp only: assms(1) check_arrays_1d)
  have dat: "concat (map array_data (as_list phases)) = concat trials"
    by (simp only: assms(1) array_data_1d)
  have nth: "?p ! j = c" if "j < ?N" for j
    using that assms(3) nth_mem by fastforce
  have inner: "(\<Sum>k\<in>{..<?N} - {j}. cos (?p ! j - ?p ! k)) = real ?N - 1" if "j < ?N" for j
  proof -
    have "(\<Sum>k\<in>{..<?N} - {j}. cos (?p ! j - ?p ! k)) = (\<Sum>k\<in>{..<?N} - {j}. 1)"
      by (rule sum.cong) (use that nth in auto)
    also have "\<dots> = real (card ({..<?N} - {j}))" by simp
    also have "\<dots> = real ?N - 1" using that assms(2) by (simp add: of_nat_diff)
    finally show ?thesis .
  qed
  have "(\<Sum>j<?N. \<Sum>k\<in>{..<?N} - {j}. cos (?p ! j - ?p ! k)) = (\<Sum>j<?N. real ?N - 1)"
    by (rule sum.cong) (use inner in auto)
  then have total: "(\<Sum>j<?N. \<Sum>k\<in>{..<?N} - {j}. cos (?p ! j - ?p ! k)) = real ?N * (real ?N - 1)"
    by simp
  show ?thesis
    unfolding ppc0_value[OF chk ne] dat total
    using denominator_pos[OF assms(2)]
    by (simp add: np_divide_def)
qed

theorem ppc0_identical_phases_witness:
  "as_list (Single (NDArray 1 [2, 2, 2])) = map (NDArray 1) [[2, 2, 2]]
   \<and> 2 \<le> length (concat [[2, 2, 2::real]])
   \<and> set (concat [[2, 2, 2::real]]) = {2}
   \<and> pairwise_phase_consistency (Single (NDArray 1 [2, 2, 2])) ''ppc0'' = Inr (Float (Finite 1))"
  using ppc0_identical_phases[of "Single (NDArray 1 [2, 2, 2])" "[[2, 2, 2]]" 2]
  by simp

text \<open>
  Claim C7. With method \<^verbatim>\<open>ppc1\<close> the call always ends in an error: the method check
  raises before the branch that would return nothing is reached.
\<close>

theorem ppc1_raises: "\<exists>e. pairwise_phase_consistency phases ''ppc1'' = Inl e"
  by (cases "check_arrays (as_list phases)") (simp_all add: pairwise_phase_consistency_def)

text \<open>
  Claim C6, amended. When some element of the normalised input is not a one-dimensional
  array, the call fails whatever the method is, before the phases are pooled: with
  \<^verbatim>\<open>TypeError\<close> when the first such element is not an array, with \<^verbatim>\<open>ValueError\<close> when
  it is an array of another dimension.
\<close>

theorem ppc_invalid_element_raises:
  assumes "\<not> list_all is_1d (as_list phases)"
  shows "pairwise_phase_consistency phases method =
         Inl (case find (\<lambda>x. \<not> is_1d x) (as_list phases) of
                Some NotArray \<Rightarrow> TypeError | _ \<Rightarrow> ValueError)"
  by (simp add: pairwise_phase_consistency_def check_arrays_bad[OF assms])

theorem ppc_invalid_element_raises_witness:
  "\<not> list_all is_1d (as_list (PyList [NDArray 1 [0], NotArray, NDArray 2 [0, 1]]))
   \<and> pairwise_phase_consistency (PyList [NDArray 1 [0], NotArray, NDArray 2 [0, 1]]) ''ppc0''
       = Inl TypeError"
  using ppc_invalid_element_raises[of "PyList [NDArray 1 [0], NotArray, NDArray 2 [0, 1]]" "''ppc0''"]
  by simp

text \<open>
  Claim C6 as stated fails: a list holding one two-dimensional array raises
  \<^verbatim>\<open>ValueError\<close>, not \<^verbatim>\<open>TypeError\<close>.
\<close>

theorem ppc_two_dimensional_counterexample:
  "\<not> list_all is_1d (as_list (PyList [NDArray 2 [0, 1, 2, 3]]))
   \<and> pairwise_phase_consistency (PyList [NDArray 2 [0, 1, 2, 3]]) ''ppc0'' \<noteq> Inl TypeError
   \<and> pairwise_phase_consistency (PyList [NDArray 2 [0, 1, 2, 3]]) ''ppc0'' = Inl ValueError"
  by (simp add: pairwise_phase_consistency_def)

text \<open>
  Claim C8, amended. For an input of at least one one-dimensional array whose pooled phase
  count is below 2, method \<^verbatim>\<open>ppc0\<close> returns \<^verbatim>\<open>nan\<close>: the matrix sum and the divisor
  are both zero.
\<close>

theorem ppc0_too_few_phases:
  assumes "list_all is_1d (as_list phases)" and "as_list phases \<noteq> []"
    and "length (concat (map array_data (as_list phases))) < 2"
  shows "pairwise_phase_consistency phases ''ppc0'' = Inr (Float NaN)"
proof -
  let ?p = "concat (map array_data (as_list phases))"
  have chk: "check_arrays (as_list phases) = Inr ()"
    by (rule check_arrays_ok[OF assms(1)])
  have inner: "(\<Sum>k\<in>{..<length ?p} - {j}. cos (?p ! j - ?p ! k)) = 0" if "j < length ?p" for j
    by (simp only: no_other_index[OF assms(3) that] sum.empty)
  have total: "(\<Sum>j<length ?p. \<Sum>k\<in>{..<length ?p} - {j}. cos (?p ! j - ?p ! k)) = 0"
    by (rule sum.neutral) (use inner in blast)
  show ?thesis
    unfolding ppc0_value[OF chk assms(2)] total denominator_zero[OF assms(3)]
    by (simp add: np_divide_def)
qed

theorem ppc0_too_few_phases_witness:
  "list_all is_1d (as_list (Single (NDArray 1 [3]))) \<and> as_list (Single (NDArray 1 [3])) \<noteq> []
   \<and> length (concat (map array_data (as_list (Single (NDArray 1 [3]))))) < 2
   \<and> pairwise_phase_consistency (Single (NDArray 1 [3])) ''ppc0'' = Inr (Float NaN)"
  using ppc0_too_few_phases[of "Single (NDArray 1 [3])"]
  by simp

text \<open>
  Claim C8 as stated fails on the empty list: it pools no phase at all, and
  \<^verbatim>\<open>np.hstack\<close> raises \<^verbatim>\<open>ValueError\<close> before the division.
\<close>

theorem ppc0_empty_list_counterexample:
  "list_all is_1d (as_list (PyList []))
   \<and> length (concat (map array_data (as_list (PyList [])))) < 2
   \<and> pairwise_phase_consistency (PyList []) ''ppc0'' \<noteq> Inr (Float NaN)
   \<and> pairwise_phase_consistency (PyList []) ''ppc0'' = Inl ValueError"
  by (simp add: pairwise_phase_consistency_def hstack_def)

section \<open>Properties of the spike-triggered phase\<close>

subsection \<open>The loops\<close>

lemma py_index_nat:
  "py_index xs (int k) = (if k < length xs then Inr (xs ! k) else Inl IndexError)"
  by (simp add: py_index_def)

lemma append_at_last: "append_at (r @ [e]) (length r) x = r @ [e @ [x]]"
  by (simp add: append_at_def)

lemma spike_loop_last:
  assumes "spike_loop sig ip st sti (length rp) es (rp @ [ps], ra @ [as], rt @ [ts]) = Inr res"
    and "length ra = length rp" and "length rt = length rp"
  shows "\<exists>pas. map (\<lambda>e. spike_step sig ip (st ! (sti ! fst e)) (snd e)) es = map Inr pas
           \<and> res = (rp @ [ps @ map fst pas], ra @ [as @ map snd pas],
                    rt @ [ts @ map (\<lambda>e. st ! (sti ! fst e)) es])"
  using assms
proof (induction es arbitrary: ps as ts)
  case Nil
  then show ?case by simp
next
  case (Cons e es)
  obtain spike_i ind where e: "e = (spike_i, ind)" by (cases e)
  from Cons.prems(1) obtain p a where
    step: "spike_step sig ip (st ! (sti ! spike_i)) ind = Inr (p, a)"
    by (auto simp: e split: sum.splits)
  have rest: "spike_loop sig ip st sti (length rp) es
        (rp @ [ps @ [p]], ra @ [as @ [a]], rt @ [ts @ [st ! (sti ! spike_i)]]) = Inr res"
    using Cons.prems step
    by (simp add: e append_at_last append_at_last[of ra, unfolded Cons.prems(2)]
          append_at_last[of rt, unfolded Cons.prems(3)])
  from Cons.IH[OF rest Cons.prems(2,3)] obtain pas where
    pas: "map (\<lambda>e. spike_step sig ip (st ! (sti ! fst e)) (snd e)) es = map Inr pas"
      "res = (rp @ [(ps @ [p]) @ map fst pas], ra @ [(as @ [a]) @ map snd pas],
              rt @ [(ts @ [st ! (sti ! spike_i)]) @ map (\<lambda>e. st ! (sti ! fst e)) es])"
    by blast
  show ?case
    by (rule exI[of _ "(p, a) # pas"]) (simp add: pas e step)
qed


lemma py_index_map_nat:
  "py_index (map f xs) (int k) = (if k < length xs then Inr (f (xs ! k)) else Inl IndexError)"
  by (simp add: py_index_nat)

lemma enumerate_steps:
  "map (\<lambda>e. spike_step sig ip (st ! (sti ! fst e)) (snd e))
       (enumerate 0 (map (\<lambda>k. sample_index sig (st ! k)) sti))
   = map (\<lambda>t. spike_step sig ip t (sample_index sig t)) (map (\<lambda>k. st ! k) sti)"
  by (rule nth_equalityI) (simp_all add: nth_enumerate_eq)

lemma enumerate_times:
  "map (\<lambda>e. st ! (sti ! fst e)) (enumerate 0 (map (\<lambda>k. sample_index sig (st ! k)) sti))
   = map (\<lambda>k. st ! k) sti"
  by (rule nth_equalityI) (simp_all add: nth_enumerate_eq)

lemma ind_at_spike_Inr:
  "ind_at_spike sig st sti = Inr inds \<Longrightarrow> inds = map (\<lambda>k. sample_index sig (st ! k)) sti"
  by (auto simp: ind_at_spike_def split: if_splits)

lemma train_step:
  assumes "train_loop ht ip ((n, st) # rest) (rp, ra, rt) = Inr out"
    and "length rp = n" "length ra = n" "length rt = n"
  shows "\<exists>ps amps.
           phase_index (length ht) n < length ht
         \<and> aligned (matched_signal ht n) ip (retained (matched_signal ht n) st) ps amps
             (retained (matched_signal ht n) st)
         \<and> train_loop ht ip rest
             (rp @ [ps], ra @ [amps], rt @ [retained (matched_signal ht n) st]) = Inr out"
proof -
  let ?pi = "phase_index (length ht) n"
  let ?sig = "matched_signal ht n"
  let ?sti = "sttimeind st (t_start ?sig) (t_stop ?sig)"
  have inr: "?pi < length ht"
    using assms(1) by (auto simp: py_index_map_nat Let_def split: if_splits)
  from assms(1) inr obtain inds res where
    inds: "ind_at_spike ?sig st ?sti = Inr inds"
    and loop: "spike_loop ?sig ip st ?sti n (enumerate 0 inds) (rp @ [[]], ra @ [[]], rt @ [[]]) = Inr res"
    and rest: "train_loop ht ip rest res = Inr out"
    by (auto simp: py_index_map_nat py_index_nat Let_def matched_signal_def split: sum.splits)
  have inds_eq: "inds = map (\<lambda>k. sample_index ?sig (st ! k)) ?sti"
    by (rule ind_at_spike_Inr[OF inds])
  from spike_loop_last[of ?sig ip st ?sti rp "enumerate 0 inds" "[]" ra "[]" rt "[]" res]
    loop assms(2-4)
  obtain pas where
    pas: "map (\<lambda>e. spike_step ?sig ip (st ! (?sti ! fst e)) (snd e)) (enumerate 0 inds) = map Inr pas"
    and res: "res = (rp @ [map fst pas], ra @ [map snd pas],
                     rt @ [map (\<lambda>e. st ! (?sti ! fst e)) (enumerate 0 inds)])"
    by auto
  have steps: "map (\<lambda>t. spike_step ?sig ip t (sample_index ?sig t)) (retained ?sig st) = map Inr pas"
    using pas unfolding inds_eq enumerate_steps by (simp add: retained_def)
  have tms: "map (\<lambda>e. st ! (?sti ! fst e)) (enumerate 0 inds) = retained ?sig st"
    unfolding inds_eq enumerate_times by (simp add: retained_def)
  have len: "length pas = length (retained ?sig st)"
    using arg_cong[OF steps, of length] by simp
  have al: "aligned ?sig ip (retained ?sig st) (map fst pas) (map snd pas) (retained ?sig st)"
    unfolding aligned_def using steps len by (simp add: zip_map_fst_snd)
  show ?thesis
    using inr al rest unfolding res tms by blast
qed

lemma train_loop_Inr:
  assumes "train_loop ht ip (enumerate n trains) (rp, ra, rt) = Inr (rp', ra', rt')"
    and "length rp = n" "length ra = n" "length rt = n"
  shows "\<exists>ps amps ts. rp' = rp @ ps \<and> ra' = ra @ amps \<and> rt' = rt @ ts
           \<and> length ps = length trains \<and> length amps = length trains \<and> length ts = length trains
           \<and> (\<forall>i<length trains.
                 phase_index (length ht) (n + i) < length ht
               \<and> aligned (matched_signal ht (n + i)) ip
                   (retained (matched_signal ht (n + i)) (trains ! i)) (ps ! i) (amps ! i) (ts ! i))"
  using assms
proof (induction trains arbitrary: n rp ra rt)
  case Nil
  then show ?case by simp
next
  case (Cons st trains)
  have "train_loop ht ip ((n, st) # enumerate (Suc n) trains) (rp, ra, rt) = Inr (rp', ra', rt')"
    using Cons.prems(1) by simp
  from train_step[OF this Cons.prems(2-4)] obtain p0 a0 where
    inr: "phase_index (length ht) n < length ht"
    and al: "aligned (matched_signal ht n) ip (retained (matched_signal ht n) st) p0 a0
               (retained (matched_signal ht n) st)"
    and rest: "train_loop ht ip (enumerate (Suc n) trains)
                 (rp @ [p0], ra @ [a0], rt @ [retained (matched_signal ht n) st]) = Inr (rp', ra', rt')"
    by blast
  from Cons.IH[OF rest] Cons.prems(2-4) obtain ps amps ts where
    eqs: "rp' = (rp @ [p0]) @ ps" "ra' = (ra @ [a0]) @ amps"
         "rt' = (rt @ [retained (matched_signal ht n) st]) @ ts"
    and lens: "length ps = length trains" "length amps = length trains" "length ts = length trains"
    and all: "\<forall>i<length trains.
                 phase_index (length ht) (Suc n + i) < length ht
               \<and> aligned (matched_signal ht (Suc n + i)) ip
                   (retained (matched_signal ht (Suc n + i)) (trains ! i)) (ps ! i) (amps ! i) (ts ! i)"
    by auto
  have "\<forall>i<length (st # trains).
                 phase_index (length ht) (n + i) < length ht
               \<and> aligned (matched_signal ht (n + i)) ip
                   (retained (matched_signal ht (n + i)) ((st # trains) ! i))
                   ((p0 # ps) ! i) ((a0 # amps) ! i) ((retained (matched_signal ht n) st # ts) ! i)"
  proof (intro allI impI)
    fix i assume "i < length (st # trains)"
    then show "phase_index (length ht) (n + i) < length ht
               \<and> aligned (matched_signal ht (n + i)) ip
                   (retained (matched_signal ht (n + i)) ((st # trains) ! i))
                   ((p0 # ps) ! i) ((a0 # amps) ! i) ((retained (matched_signal ht n) st # ts) ! i)"
      using inr al all by (cases i) auto
  qed
  then show ?case
    using eqs lens
    by (intro exI[of _ "p0 # ps"] exI[of _ "a0 # amps"]
              exI[of _ "retained (matched_signal ht n) st # ts"]) simp
qed

subsection \<open>The conversion of the results and the whole function\<close>

lemma quantity_entries_Inr:
  "quantity_entries xs = Inr ys \<Longrightarrow> ys = xs \<and> [] \<notin> set xs"
proof (induction xs arbitrary: ys)
  case Nil
  then show ?case by simp
next
  case (Cons x xs)
  then show ?case by (cases x) (auto split: sum.splits)
qed

lemma quantity_entries_empty:
  "[] \<in> set xs \<Longrightarrow> quantity_entries xs = Inl IndexError"
proof (induction xs)
  case Nil
  then show ?case by simp
next
  case (Cons x xs)
  then show ?case by (cases x) (auto split: sum.splits)
qed

lemma spike_triggered_phase_Inr:
  assumes "spike_triggered_phase H S ip = Inr (P, A, T)"
  shows "length P = length (as_list S) \<and> length A = length (as_list S)
         \<and> length T = length (as_list S)
         \<and> (\<forall>i<length (as_list S).
               phase_index (length (as_list H)) i < length (as_list H)
             \<and> T ! i \<noteq> []
             \<and> aligned (matched_signal (as_list H) i) ip
                 (retained (matched_signal (as_list H) i) (as_list S ! i)) (P ! i) (A ! i) (T ! i))"
proof -
  from assms obtain ra rt where
    loop: "train_loop (as_list H) ip (enumerate 0 (as_list S)) ([], [], []) = Inr (P, ra, rt)"
    and qa: "quantity_entries ra = Inr A" and qt: "quantity_entries rt = Inr T"
    by (auto simp: spike_triggered_phase_def Let_def split: if_splits sum.splits prod.splits)
  have A: "A = ra" and T: "T = rt" and ne: "[] \<notin> set rt"
    using quantity_entries_Inr[OF qa] quantity_entries_Inr[OF qt] by auto
  from train_loop_Inr[OF loop] obtain ps amps ts where
    "P = ps" "ra = amps" "rt = ts"
    and lens: "length ps = length (as_list S)" "length amps = length (as_list S)"
      "length ts = length (as_list S)"
    and all: "\<forall>i<length (as_list S).
                 phase_index (length (as_list H)) (0 + i) < length (as_list H)
               \<and> aligned (matched_signal (as_list H) (0 + i)) ip
                   (retained (matched_signal (as_list H) (0 + i)) (as_list S ! i))
                   (ps ! i) (amps ! i) (ts ! i)"
    by auto
  then show ?thesis
    using A T ne by (auto simp: in_set_conv_nth)
qed


subsection \<open>Evaluation on concrete inputs, and the loop body on a sample\<close>

lemmas spike_eval =
  spike_triggered_phase_def example_signal_def other_signal_def sttimeind_def ind_at_spike_def
  sample_index_def astype_int_def phase_index_def py_index_def spike_step_def spike_offset_def
  append_at_def enumerate_eq_zip matched_signal_def retained_def aligned_def Let_def

lemma Arg_cis_Arg: "Arg (cis (Arg s)) = Arg s"
  by (rule cis_Arg_unique) (simp_all add: Arg_bounded)

lemma step_on_sample:
  assumes "spike_step sig True t ind = Inr (p, a)"
    and "spike_step sig False t ind = Inr (p', a')"
    and "spike_offset sig t ind = Inr 0"
  shows "p = p'"
  using assms
  by (auto simp: spike_step_def Let_def Arg_cis_Arg split: if_splits sum.splits)

lemma aligned_nth:
  assumes "aligned sig ip ev ps amps ts" and "k < length ts"
  shows "spike_step sig ip (ts ! k) (sample_index sig (ts ! k)) = Inr (ps ! k, amps ! k)"
proof -
  have ts: "ts = ev" and lp: "length ps = length ev" and la: "length amps = length ev"
    and m: "map (\<lambda>t. spike_step sig ip t (sample_index sig t)) ev = map Inr (zip ps amps)"
    using assms(1) by (simp_all add: aligned_def)
  have k: "k < length ev" using assms(2) ts by simp
  have "map (\<lambda>t. spike_step sig ip t (sample_index sig t)) ev ! k = map Inr (zip ps amps) ! k"
    by (simp only: m)
  then show ?thesis using k lp la ts by simp
qed

lemma set_retained:
  "set (retained sig st) = {t \<in> set st. t_start sig \<le> t \<and> t < t_stop sig}"
  by (auto simp: retained_def sttimeind_def in_set_conv_nth)

text \<open>
  Claim C5. In every successful call, for every spike train and the signal it is compared
  with: a spike of the train exactly at the signal's \<^verbatim>\<open>t_start\<close> is among the times
  returned for that train, and no time returned for that train is the signal's
  \<^verbatim>\<open>t_stop\<close>. The window is closed on the left and open on the right.
\<close>

theorem boundary_events:
  assumes "spike_triggered_phase H S ip = Inr (P, A, T)" and "i < length (as_list S)"
  shows "i < length T
       \<and> (t_start (matched_signal (as_list H) i) \<in> set (as_list S ! i)
            \<longrightarrow> t_start (matched_signal (as_list H) i) \<in> set (T ! i))
       \<and> t_stop (matched_signal (as_list H) i) \<notin> set (T ! i)"
proof -
  let ?sig = "matched_signal (as_list H) i"
  let ?st = "as_list S ! i"
  have len: "length T = length (as_list S)"
    and ne: "T ! i \<noteq> []"
    and al: "aligned ?sig ip (retained ?sig ?st) (P ! i) (A ! i) (T ! i)"
    using spike_triggered_phase_Inr[OF assms(1)] assms(2) by blast+
  have T: "T ! i = retained ?sig ?st"
    using al by (simp add: aligned_def)
  have sets: "set (T ! i) = {t \<in> set ?st. t_start ?sig \<le> t \<and> t < t_stop ?sig}"
    by (simp only: T set_retained)
  obtain t where "t \<in> set (T ! i)"
    using ne by (cases "T ! i") auto
  then have window: "t_start ?sig < t_stop ?sig"
    unfolding sets by auto
  show ?thesis
    using len assms(2) window unfolding sets by auto
qed

theorem boundary_events_witness:
  "spike_triggered_phase (PyList [other_signal, example_signal]) (PyList [[1], [1, 0, 3]]) False
     = Inr ([[Arg \<i>], [Arg \<i>, Arg 1]], [[1], [1, 1]], [[1], [1, 0]])
   \<and> (1::nat) < length (as_list (PyList [[1], [1, 0, 3::real]]))
   \<and> (1::nat) < length [[1], [1, 0::real]]
   \<and> t_start (matched_signal (as_list (PyList [other_signal, example_signal])) 1)
        \<in> set (as_list (PyList [[1], [1, 0, 3]]) ! 1)
   \<and> t_start (matched_signal (as_list (PyList [other_signal, example_signal])) 1)
        \<in> set ([[1], [1, 0]] ! 1)
   \<and> t_stop (matched_signal (as_list (PyList [other_signal, example_signal])) 1)
        \<in> set (as_list (PyList [[1], [1, 0, 3]]) ! 1)
   \<and> t_stop (matched_signal (as_list (PyList [other_signal, example_signal])) 1)
        \<notin> set ([[1], [1, 0]] ! 1)"
  using boundary_events[of "PyList [other_signal, example_signal]" "PyList [[1], [1, 0, 3]]" False
      "[[Arg \<i>], [Arg \<i>, Arg 1]]" "[[1], [1, 1]]" "[[1], [1, 0]]" 1]
  by (simp add: spike_eval)

text \<open>
  Claim C10. After a successful call the three result lists have one entry per spike train;
  for each train the three entries have the length of its retained spikes, the times are the
  retained spike times in order, and the phase and amplitude at each position are those
  computed for the retained spike at that position.
\<close>

theorem results_aligned:
  assumes "spike_triggered_phase H S ip = Inr (P, A, T)"
  shows "length P = length (as_list S) \<and> length A = length (as_list S)
       \<and> length T = length (as_list S)
       \<and> (\<forall>i<length (as_list S).
            aligned (matched_signal (as_list H) i) ip
              (retained (matched_signal (as_list H) i) (as_list S ! i)) (P ! i) (A ! i) (T ! i))"
  using spike_triggered_phase_Inr[OF assms] by blast

theorem results_aligned_witness:
  "spike_triggered_phase (Single example_signal) (PyList [[0, 3, 3/2], [1]]) False
     = Inr ([[Arg 1, Arg \<i>], [Arg \<i>]], [[1, 1], [1]], [[0, 3/2], [1]])
   \<and> length [[Arg 1, Arg \<i>], [Arg \<i>]] = length (as_list (PyList [[0, 3, 3/2], [1::real]]))
   \<and> aligned (matched_signal (as_list (Single example_signal)) 0) False
        (retained (matched_signal (as_list (Single example_signal)) 0) [0, 3, 3/2])
        [Arg 1, Arg \<i>] [1, 1] [0, 3/2]"
  using results_aligned[of "Single example_signal" "PyList [[0, 3, 3/2], [1]]" False
      "[[Arg 1, Arg \<i>], [Arg \<i>]]" "[[1, 1], [1]]" "[[0, 3/2], [1]]"]
  by (simp add: spike_eval)

text \<open>
  Claim C4. For a retained spike whose time is exactly a sample time (offset \<open>z = 0\<close>) and
  whose next sample index is in range, the phase returned with interpolation equals the phase
  returned without it.
\<close>

theorem interpolation_on_sample:
  assumes "spike_triggered_phase H S True = Inr (P, A, T)"
    and "spike_triggered_phase H S False = Inr (P', A', T')"
    and "i < length (as_list S)" and "k < length (T ! i)"
    and "sample_index (matched_signal (as_list H) i) (T ! i ! k) + 1
           < int (length (times_arr (matched_signal (as_list H) i)))"
    and "spike_offset (matched_signal (as_list H) i) (T ! i ! k)
           (sample_index (matched_signal (as_list H) i) (T ! i ! k)) = Inr 0"
  shows "P ! i ! k = P' ! i ! k"
proof -
  let ?sig = "matched_signal (as_list H) i"
  let ?ev = "retained ?sig (as_list S ! i)"
  have al: "aligned ?sig True ?ev (P ! i) (A ! i) (T ! i)"
    using spike_triggered_phase_Inr[OF assms(1)] assms(3) by blast
  have al': "aligned ?sig False ?ev (P' ! i) (A' ! i) (T' ! i)"
    using spike_triggered_phase_Inr[OF assms(2)] assms(3) by blast
  have TT: "T' ! i = T ! i" using al al' by (simp add: aligned_def)
  have k': "k < length (T' ! i)" using assms(4) TT by simp
  have s1: "spike_step ?sig True (T ! i ! k) (sample_index ?sig (T ! i ! k)) = Inr (P ! i ! k, A ! i ! k)"
    by (rule aligned_nth[OF al assms(4)])
  have s2: "spike_step ?sig False (T ! i ! k) (sample_index ?sig (T ! i ! k)) = Inr (P' ! i ! k, A' ! i ! k)"
    using aligned_nth[OF al' k'] TT by simp
  show ?thesis by (rule step_on_sample[OF s1 s2 assms(6)])
qed

theorem interpolation_on_sample_witness:
  "spike_triggered_phase (Single example_signal) (Single [1]) True
     = Inr ([[Arg (cis (Arg \<i>))]], [[1]], [[1]])
   \<and> spike_triggered_phase (Single example_signal) (Single [1]) False
     = Inr ([[Arg \<i>]], [[1]], [[1]])
   \<and> sample_index example_signal 1 + 1 < int (length (times_arr example_signal))
   \<and> spike_offset example_signal 1 (sample_index example_signal 1) = Inr 0
   \<and> Arg (cis (Arg \<i>)) = Arg \<i>"
  using interpolation_on_sample[of "Single example_signal" "Single [1]"
      "[[Arg (cis (Arg \<i>))]]" "[[1]]" "[[1]]" "[[Arg \<i>]]" "[[1]]" "[[1]]" 0 0]
  by (simp add: spike_eval)


lemma train_loop_first_signal:
  assumes "1 < length ht"
  shows "train_loop ht ip [(0, st)] res = train_loop [ht ! 0] ip [(0, st)] res"
proof -
  obtain rp ra rt where res: "res = (rp, ra, rt)" by (cases res)
  have pi: "phase_index (length ht) 0 = 0" "phase_index (length [ht ! 0]) 0 = 0"
    by (simp_all add: phase_index_def)
  have ix: "py_index ht 0 = Inr (ht ! 0)" "py_index [ht ! 0] 0 = Inr (ht ! 0)"
    "py_index (map t_start ht) 0 = Inr (t_start (ht ! 0))"
    "py_index (map t_stop ht) 0 = Inr (t_stop (ht ! 0))"
    using assms by (auto simp: py_index_def)
  show ?thesis
    unfolding res using assms
    by (auto simp: pi ix phase_index_def Let_def py_index_def split: sum.splits)
qed

text \<open>
  Claim C1, amended. With exactly one spike train and more than one signal, the train is
  compared with the first signal only: the call gives what the call with the first signal
  alone gives, and a successful result has one entry in each of the three lists.
\<close>

theorem one_train_many_signals:
  assumes "as_list S = [st]" and "1 < length (as_list H)"
  shows "spike_triggered_phase H S ip = spike_triggered_phase (Single (as_list H ! 0)) S ip
       \<and> (\<forall>P A T. spike_triggered_phase H S ip = Inr (P, A, T)
            \<longrightarrow> length P = 1 \<and> length A = 1 \<and> length T = 1)"
proof
  show "spike_triggered_phase H S ip = spike_triggered_phase (Single (as_list H ! 0)) S ip"
    by (simp del: train_loop.simps
          add: spike_triggered_phase_def assms(1) train_loop_first_signal[OF assms(2)])
  show "\<forall>P A T. spike_triggered_phase H S ip = Inr (P, A, T)
            \<longrightarrow> length P = 1 \<and> length A = 1 \<and> length T = 1"
    using spike_triggered_phase_Inr[of H S ip] assms(1) by auto
qed

theorem one_train_many_signals_witness:
  "as_list (Single [1::real]) = [[1]]
   \<and> 1 < length (as_list (PyList [example_signal, other_signal, other_signal]))
   \<and> spike_triggered_phase (PyList [example_signal, other_signal, other_signal]) (Single [1]) False
       = spike_triggered_phase (Single example_signal) (Single [1]) False
   \<and> spike_triggered_phase (Single example_signal) (Single [1]) False
       = Inr ([[Arg \<i>]], [[1]], [[1]])"
  using one_train_many_signals[of "Single [1]" "[1]"
      "PyList [example_signal, other_signal, other_signal]" False]
  by (simp add: spike_eval)

text \<open>
  Claim C1 as stated fails: with two signals and one spike train the result has one entry,
  taken from the first signal, not two.
\<close>

theorem one_train_two_signals_counterexample:
  "length (as_list (Single [0::real])) = 1
   \<and> length (as_list (PyList [example_signal, other_signal])) = 2
   \<and> spike_triggered_phase (PyList [example_signal, other_signal]) (Single [0]) False
       = Inr ([[Arg 1]], [[1]], [[0]])
   \<and> length [[Arg 1]] \<noteq> length (as_list (PyList [example_signal, other_signal]))"
  by (simp add: spike_eval)

text \<open>
  Claim C2 does not hold of the code. Whenever the retained set of some spike train is
  empty, the call ends in an error and returns no result: converting the empty amplitude
  entry reads the unit of its first element.
\<close>

theorem empty_retained_raises:
  assumes "i < length (as_list S)"
    and "retained (matched_signal (as_list H) i) (as_list S ! i) = []"
  shows "\<exists>e. spike_triggered_phase H S ip = Inl e"
proof (cases "spike_triggered_phase H S ip")
  case (Inl e)
  then show ?thesis by blast
next
  case (Inr r)
  obtain P A T where r: "r = (P, A, T)" by (cases r)
  have "T ! i \<noteq> []"
    and "aligned (matched_signal (as_list H) i) ip
           (retained (matched_signal (as_list H) i) (as_list S ! i)) (P ! i) (A ! i) (T ! i)"
    using spike_triggered_phase_Inr[OF Inr[unfolded r]] assms(1) by blast+
  then have False using assms(2) by (simp add: aligned_def)
  then show ?thesis ..
qed

theorem empty_retained_raises_witness:
  "(0::nat) < length (as_list (Single [3::real]))
   \<and> retained (matched_signal (as_list (Single example_signal)) 0) (as_list (Single [3]) ! 0) = []
   \<and> (\<exists>e. spike_triggered_phase (Single example_signal) (Single [3]) False = Inl e)
   \<and> spike_triggered_phase (Single example_signal) (Single [3]) False = Inl IndexError
   \<and> spike_triggered_phase (Single example_signal) (Single []) True = Inl IndexError"
  using empty_retained_raises[of 0 "Single [3]" "Single example_signal" False]
  by (simp add: spike_eval)

end
